theory Spec2Isabelle
  imports Complex_Main "HOL-Library.Signed_Division" "HOL-Library.Word" "HOL-Library.Monad_Syntax"
begin

unbundle bit_operations_syntax

section \<open>battery-stats: the statistics engine of \<^verbatim>\<open>battery_stats.cpp\<close>\<close>

text \<open>
  Conventions of the embedding.
  \<^item> A \<^verbatim>\<open>double\<close> is a \<^typ>\<open>real\<close>: the arithmetic is exact. Rounding, infinities and NaN
    are not represented; a quotient whose divisor is zero is \<open>None\<close> (see \<open>ddiv\<close>).
  \<^item> A \<^verbatim>\<open>time_point\<close> of \<^verbatim>\<open>system_clock\<close> or \<^verbatim>\<open>steady_clock\<close> is its tick count, an
    \<^typ>\<open>int\<close>; a duration is a tick count together with the number of ticks per second
    of its type. \<^verbatim>\<open>duration_cast\<close> to a coarser unit is division truncating towards zero
    (\<open>sdiv\<close>).
  \<^item> Every call of \<^verbatim>\<open>now()\<close> is an input: the record \<open>clocks\<close> holds the readings that one
    call of an entry point takes.
  \<^item> \<^verbatim>\<open>std::cout\<close> is the list of lines an entry point returns beside the new state.
\<close>

subsection \<open>Enumerations and flags\<close>

datatype PowerState = Awake | Suspended | Hibernating

datatype BatteryState = Charging | Discharging | Idle

datatype Stat = StatEnergy | StatRate | StatAverageRate | StatRelEnergy

type_synonym StatFlags = "32 word"

fun to_underlying :: "Stat \<Rightarrow> 32 word" where
  "to_underlying StatEnergy = 1"
| "to_underlying StatRate = 2"
| "to_underlying StatAverageRate = 4"
| "to_underlying StatRelEnergy = 8"

text \<open>\<^verbatim>\<open>operator|(Stat, Stat)\<close>, \<^verbatim>\<open>operator|(StatFlags, Stat)\<close> and \<^verbatim>\<open>operator&(StatFlags, Stat)\<close>.\<close>

definition stat_or :: "Stat \<Rightarrow> Stat \<Rightarrow> StatFlags" where
  "stat_or a b = to_underlying a OR to_underlying b"

definition flags_or :: "StatFlags \<Rightarrow> Stat \<Rightarrow> StatFlags" where
  "flags_or f s = f OR to_underlying s"

definition flags_and :: "StatFlags \<Rightarrow> Stat \<Rightarrow> bool" where
  "flags_and flags a = (flags AND to_underlying a \<noteq> 0)"

subsection \<open>Rendering numbers\<close>

definition digit_char :: "nat \<Rightarrow> char" where
  "digit_char d = ''0123456789'' ! d"

function dec_nat :: "nat \<Rightarrow> string" where
  "dec_nat n = (if n < 10 then [digit_char n] else dec_nat (n div 10) @ [digit_char (n mod 10)])"
  by pat_completeness auto
termination
  by (relation "measure (\<lambda>n. n)") auto

declare dec_nat.simps [simp del]

text \<open>\<^verbatim>\<open>std::format("{}", n)\<close> for an integer count.\<close>

definition dec_int :: "int \<Rightarrow> string" where
  "dec_int i = (if i < 0 then CHR ''-'' # dec_nat (nat (- i)) else dec_nat (nat i))"

text \<open>
  \<^verbatim>\<open>std::format("{:.Nf}", x)\<close> and \<^verbatim>\<open>std::format("{:+.Nf}", x)\<close> of the C++ standard library:
  \<open>N\<close> digits after the point, the exact value rounded to the nearest multiple of
  \<open>10\<^sup>-\<^sup>N\<close>, a tie going to the even digit; the sign is that of the value before rounding,
  and \<open>showpos\<close> asks for a \<open>+\<close> on values that are not negative.
\<close>

definition round_half_even :: "real \<Rightarrow> int" where
  "round_half_even x =
     (let f = \<lfloor>x\<rfloor>; d = x - of_int f
      in if d < 1 / 2 then f else if 1 / 2 < d then f + 1 else if even f then f else f + 1)"

definition zero_pad :: "nat \<Rightarrow> string \<Rightarrow> string" where
  "zero_pad n s = replicate (n - length s) (CHR ''0'') @ s"

definition fmt_fixed :: "bool \<Rightarrow> nat \<Rightarrow> real \<Rightarrow> string" where
  "fmt_fixed showpos prec x =
     (let m = round_half_even (\<bar>x\<bar> * 10 ^ prec);
          sign = (if x < 0 then ''-'' else if showpos then ''+'' else '''')
      in sign @ dec_nat (nat (m div 10 ^ prec)) @ ''.'' @
         zero_pad prec (dec_nat (nat (m mod 10 ^ prec))))"

text \<open>
  Division of doubles. With a zero divisor the C++ quotient is an infinity or a NaN, which
  a \<^typ>\<open>real\<close> cannot hold: the model returns \<open>None\<close> there instead of HOL's \<open>x / 0 = 0\<close>.
\<close>

definition ddiv :: "real \<Rightarrow> real \<Rightarrow> real option" where
  "ddiv x y = (if y = 0 then None else Some (x / y))"

subsection \<open>formatRelTime\<close>

text \<open>
  The template parameter \<open>T\<close> is given by \<open>per\<close>, the ticks per second of the duration
  type: 1 for seconds, 1000 for milliseconds, \<open>clock_period\<close> for a clock's own duration.
\<close>

definition formatRelTime :: "int \<Rightarrow> int \<Rightarrow> string" where
  "formatRelTime per duration =
     (let relTime = duration sdiv per in
      if relTime = 0 then []
      else
        let output = [];
            hours = relTime sdiv 3600;
            output = (if hours > 0 then output @ dec_int hours @ ''h'' else output);
            mins = relTime sdiv 60 - hours * 60;
            output = (if mins > 0 then output @ dec_int mins @ ''m'' else output);
            secs = relTime - hours * 3600 - mins * 60;
            output = (if secs > 0 then output @ dec_int secs @ ''s'' else output)
        in output)"

subsection \<open>BatteryMonitor\<close>

text \<open>
  Ticks per second of \<^verbatim>\<open>system_clock\<close> and \<^verbatim>\<open>steady_clock\<close>. The period belongs to the
  standard library; both clocks count nanoseconds in libstdc++, on the Linux systems with
  systemd and UPower that the program runs on. No property below depends on the value
  except through the examples.
\<close>

definition clock_period :: int where
  "clock_period = 1000000000"

text \<open>\<^verbatim>\<open>duration_cast<milliseconds>\<close> of a difference of two time points.\<close>

definition to_milliseconds :: "int \<Rightarrow> int" where
  "to_milliseconds d = d sdiv (clock_period div 1000)"

record Reading =
  time :: int
  relTime :: int
  energy :: real

record BatteryMonitor =
  energyEmpty :: "real option"
  energyFull :: "real option"
  firstReading :: "Reading option"
  readings :: "Reading list"
  printSuspendStats :: bool
  enterSuspendTime :: "int option"
  totalSuspendEnergy :: real

text \<open>The default member initialisers: \<^verbatim>\<open>BatteryMonitor() = default\<close>.\<close>

definition BatteryMonitor_init :: BatteryMonitor where
  "BatteryMonitor_init =
     \<lparr>energyEmpty = None, energyFull = None, firstReading = None, readings = [],
      printSuspendStats = False, enterSuspendTime = None, totalSuspendEnergy = 0\<rparr>"

text \<open>
  The clock readings of one entry-point call: \<open>sysNow\<close> is \<^verbatim>\<open>Clock::now()\<close> and \<open>relNow\<close> is
  \<^verbatim>\<open>RelClock::now()\<close> in the entry point itself; \<open>printStamp\<close> is the rendered zoned time
  that \<^verbatim>\<open>print\<close> writes first, and \<open>printRelNow\<close> is \<^verbatim>\<open>RelClock::now()\<close> in \<^verbatim>\<open>print\<close>.
\<close>

record clocks =
  sysNow :: int
  relNow :: int
  printStamp :: string
  printRelNow :: int

text \<open>A line of output; \<open>None\<close> when the line holds a quotient with a zero divisor.\<close>

type_synonym line = "string option"

definition endl :: string where
  "endl = [CHR 0x0A]"

definition isSuspended :: "BatteryMonitor \<Rightarrow> bool" where
  "isSuspended s = (enterSuspendTime s \<noteq> None)"

definition printRate :: "BatteryMonitor \<Rightarrow> real \<Rightarrow> int \<Rightarrow> string option" where
  "printRate s energyDiff timeDiff =
     (let msPerHour = 1000 * 60 * 60;
          hours = real_of_int timeDiff / msPerHour
      in do {
        watts \<leftarrow> ddiv energyDiff hours;
        let out = fmt_fixed False 2 watts @ '' W'';
        case (energyEmpty s, energyFull s) of
          (Some eEmpty, Some eFull) \<Rightarrow> do {
            percent \<leftarrow> ddiv (100 * energyDiff) (eFull - eEmpty);
            percentPerHour \<leftarrow> ddiv percent hours;
            if \<bar>percentPerHour\<bar> \<ge> 1.0
            then Some (out @ '' ('' @ fmt_fixed False 1 percentPerHour @ ''%/hr)'')
            else (let percentPerDay = percentPerHour * 24
                  in Some (out @ '' ('' @ fmt_fixed False 1 percentPerDay @ ''%/day)''))
          }
        | _ \<Rightarrow> Some out
      })"

text \<open>The part of \<^verbatim>\<open>print\<close> before the statistics: time stamp, run time, message.\<close>

definition printHead :: "clocks \<Rightarrow> BatteryMonitor \<Rightarrow> string \<Rightarrow> string" where
  "printHead clk s msg =
     (let out = printStamp clk;
          out = (case firstReading s of
                   None \<Rightarrow> out
                 | Some first \<Rightarrow>
                     (let runTimeStr = formatRelTime clock_period (printRelNow clk - relTime first)
                      in if runTimeStr \<noteq> [] then out @ '' (+'' @ runTimeStr @ '')'' else out))
      in if msg \<noteq> [] then out @ '' - '' @ msg else out)"

text \<open>The four blocks of \<^verbatim>\<open>print\<close> guarded by a flag, in the order of the source.\<close>

definition printEnergy :: "BatteryMonitor \<Rightarrow> Reading \<Rightarrow> string option" where
  "printEnergy s curReading =
     (let out = '' - '' @ fmt_fixed False 2 (energy curReading) @ '' Wh''
      in case (energyEmpty s, energyFull s) of
           (Some eEmpty, Some eFull) \<Rightarrow> do {
             percent \<leftarrow> ddiv (100 * (energy curReading - eEmpty)) (eFull - eEmpty);
             Some (out @ '' ('' @ fmt_fixed False 2 percent @ ''%)'')
           }
         | _ \<Rightarrow> Some out)"

definition printRelEnergy :: "BatteryMonitor \<Rightarrow> Reading \<Rightarrow> Reading \<Rightarrow> string option" where
  "printRelEnergy s curReading prevReading =
     (let energyDiff = energy curReading - energy prevReading;
          out = '' - '' @ fmt_fixed True 2 energyDiff @ '' Wh''
      in case (energyEmpty s, energyFull s) of
           (Some eEmpty, Some eFull) \<Rightarrow> do {
             percent \<leftarrow> ddiv (100 * energyDiff) (eFull - eEmpty);
             Some (out @ '' ('' @ fmt_fixed False 2 percent @ ''%)'')
           }
         | _ \<Rightarrow> Some out)"

definition printRateField :: "BatteryMonitor \<Rightarrow> Reading \<Rightarrow> Reading \<Rightarrow> string option" where
  "printRateField s curReading prevReading =
     do {
       r \<leftarrow> printRate s (energy curReading - energy prevReading)
              (to_milliseconds (time curReading - time prevReading));
       Some ('' / Rate '' @ r)
     }"

definition printAverageRate :: "BatteryMonitor \<Rightarrow> Reading \<Rightarrow> Reading \<Rightarrow> string option" where
  "printAverageRate s curReading first =
     (let awakeEnergy = energy curReading - energy first - totalSuspendEnergy s;
          awakeTime = relTime curReading - relTime first
      in do {
        r \<leftarrow> printRate s awakeEnergy (to_milliseconds awakeTime);
        Some ('' / Avg '' @ r)
      })"

definition print :: "clocks \<Rightarrow> BatteryMonitor \<Rightarrow> string \<Rightarrow> StatFlags \<Rightarrow> line" where
  "print clk s msg flags =
     (let out = printHead clk s msg
      in if readings s = [] then Some (out @ endl)
         else
           let curReading = last (readings s);
               prevReading = (if length (readings s) > 1
                              then Some (readings s ! (length (readings s) - 2)) else None)
           in do {
             f1 \<leftarrow> (if flags_and flags StatEnergy then printEnergy s curReading else Some []);
             f2 \<leftarrow> (case prevReading of
                     Some prev \<Rightarrow>
                       if flags_and flags StatRelEnergy then printRelEnergy s curReading prev
                       else Some []
                   | None \<Rightarrow> Some []);
             f3 \<leftarrow> (case prevReading of
                     Some prev \<Rightarrow>
                       if flags_and flags StatRate then printRateField s curReading prev
                       else Some []
                   | None \<Rightarrow> Some []);
             f4 \<leftarrow> (case firstReading s of
                     Some first \<Rightarrow>
                       if flags_and flags StatAverageRate \<and> length (readings s) > 1
                       then printAverageRate s curReading first else Some []
                   | None \<Rightarrow> Some []);
             Some (out @ f1 @ f2 @ f3 @ f4 @ endl)
           })"

definition setPowerState :: "clocks \<Rightarrow> PowerState \<Rightarrow> BatteryMonitor \<Rightarrow> BatteryMonitor \<times> line list" where
  "setPowerState clk powerState s =
     (case powerState of
        Suspended \<Rightarrow>
          (let s1 = s\<lparr>enterSuspendTime := Some (sysNow clk)\<rparr>
           in (s1, [print clk s1 ''Going to sleep'' 0]))
      | Awake \<Rightarrow>
          (case enterSuspendTime s of
             None \<Rightarrow> (s, [])
           | Some entered \<Rightarrow>
               (let suspendTime = to_milliseconds (sysNow clk - entered);
                    s1 = s\<lparr>enterSuspendTime := None\<rparr>;
                    s2 = s1\<lparr>printSuspendStats := True\<rparr>
                in (s2, [print clk s2
                           (''Resumed from '' @ formatRelTime 1000 suspendTime @ '' sleep'') 0])))
      | _ \<Rightarrow> (s, []))"

definition setBatteryState :: "clocks \<Rightarrow> BatteryState \<Rightarrow> BatteryMonitor \<Rightarrow> BatteryMonitor \<times> line list" where
  "setBatteryState clk batteryState s =
     (if batteryState = Idle then (s, [print clk s ''Battery idle'' 0])
      else
        let s1 = s\<lparr>firstReading := None\<rparr>;
            s2 = s1\<lparr>readings := []\<rparr>;
            s3 = s2\<lparr>totalSuspendEnergy := 0\<rparr>
        in case batteryState of
             Charging \<Rightarrow> (s3, [print clk s3 ''Battery charging'' 0])
           | Discharging \<Rightarrow> (s3, [print clk s3 ''Battery discharging'' 0])
           | _ \<Rightarrow> (s3, []))"

definition setBatteryLimits :: "real \<Rightarrow> real \<Rightarrow> BatteryMonitor \<Rightarrow> BatteryMonitor" where
  "setBatteryLimits eEmpty eFull s = s\<lparr>energyEmpty := Some eEmpty, energyFull := Some eFull\<rparr>"

definition updateEnergy :: "clocks \<Rightarrow> real \<Rightarrow> BatteryMonitor \<Rightarrow> BatteryMonitor \<times> line list" where
  "updateEnergy clk newEnergy s =
     (if isSuspended s then (s, [])
      else
        let r = \<lparr>time = sysNow clk, relTime = relNow clk, energy = newEnergy\<rparr>;
            s1 = (if firstReading s = None then s\<lparr>firstReading := Some r\<rparr> else s);
            s2 = s1\<lparr>readings := readings s1 @ [r]\<rparr>;
            s3 = (if length (readings s2) > 2 then s2\<lparr>readings := tl (readings s2)\<rparr> else s2)
        in if printSuspendStats s3 then
             let s4 = (if length (readings s3) > 1
                       then s3\<lparr>totalSuspendEnergy := totalSuspendEnergy s3 +
                              (newEnergy - energy (readings s3 ! (length (readings s3) - 2)))\<rparr>
                       else s3);
                 out = print clk s4 ''Sleep energy use'' (stat_or StatRelEnergy StatRate);
                 s5 = s4\<lparr>printSuspendStats := False\<rparr>
             in (s5, [out])
           else (s3, [print clk s3 [] (flags_or (stat_or StatEnergy StatRate) StatAverageRate)]))"

subsection \<open>Sequences of entry-point calls\<close>

datatype call =
  SetPowerState PowerState
| SetBatteryState BatteryState
| SetBatteryLimits real real
| UpdateEnergy real

definition perform :: "clocks \<Rightarrow> call \<Rightarrow> BatteryMonitor \<Rightarrow> BatteryMonitor \<times> line list" where
  "perform clk c s =
     (case c of
        SetPowerState p \<Rightarrow> setPowerState clk p s
      | SetBatteryState b \<Rightarrow> setBatteryState clk b s
      | SetBatteryLimits eEmpty eFull \<Rightarrow> (setBatteryLimits eEmpty eFull s, [])
      | UpdateEnergy e \<Rightarrow> updateEnergy clk e s)"

text \<open>The calls of a list one after the other, each with its own clock readings.\<close>

fun run :: "(clocks \<times> call) list \<Rightarrow> BatteryMonitor \<Rightarrow> BatteryMonitor \<times> line list" where
  "run [] s = (s, [])"
| "run ((clk, c) # cs) s =
     (let (s1, out1) = perform clk c s;
          (s2, out2) = run cs s1
      in (s2, out1 @ out2))"

text \<open>No reading is admitted while the calls run: every \<open>UpdateEnergy\<close> finds the monitor suspended.\<close>

fun discardsReadings :: "(clocks \<times> call) list \<Rightarrow> BatteryMonitor \<Rightarrow> bool" where
  "discardsReadings [] s = True"
| "discardsReadings ((clk, c) # cs) s =
     ((case c of UpdateEnergy e \<Rightarrow> isSuspended s | _ \<Rightarrow> True) \<and>
      discardsReadings cs (fst (perform clk c s)))"

text \<open>The Reading that \<^verbatim>\<open>updateEnergy\<close> builds, and the last two elements of a list.\<close>

definition mkReading :: "clocks \<times> real \<Rightarrow> Reading" where
  "mkReading ce = \<lparr>time = sysNow (fst ce), relTime = relNow (fst ce), energy = snd ce\<rparr>"

definition lastTwo :: "'a list \<Rightarrow> 'a list" where
  "lastTwo xs = drop (length xs - 2) xs"

text \<open>Insertion into the Sample Window: append, then trim from the front.\<close>

definition pushWindow :: "Reading list \<Rightarrow> Reading \<Rightarrow> Reading list" where
  "pushWindow w r = (if length (w @ [r]) > 2 then tl (w @ [r]) else w @ [r])"

subsection \<open>Example clocks and states\<close>

definition clockAt :: "int \<Rightarrow> clocks" where
  "clockAt seconds =
     \<lparr>sysNow = seconds * clock_period, relNow = seconds * clock_period,
      printStamp = ''T'', printRelNow = seconds * clock_period\<rparr>"

text \<open>One reading of 50 Wh taken at second 0, then a suspend at second 10.\<close>

definition measuring :: BatteryMonitor where
  "measuring = fst (updateEnergy (clockAt 0) 50 BatteryMonitor_init)"

definition asleep :: BatteryMonitor where
  "asleep = fst (setPowerState (clockAt 10) Suspended measuring)"

text \<open>While asleep: a reset, a reading (discarded), and the resume 90 seconds after the suspend.\<close>

definition resetWhileAsleep :: "(clocks \<times> call) list" where
  "resetWhileAsleep =
     [(clockAt 20, SetBatteryState Discharging),
      (clockAt 25, UpdateEnergy 49.5),
      (clockAt 100, SetPowerState Awake)]"

text \<open>The resume 90 seconds later, and two more readings: 49 Wh, then 48 Wh.\<close>

definition resumed :: BatteryMonitor where
  "resumed = fst (setPowerState (clockAt 100) Awake asleep)"



subsection \<open>processBatteryProperties\<close>

datatype UPowerDeviceProperty =
  PString string
| PUInt64 "64 word"
| PUInt32 "32 word"
| PBool bool
| PDouble real
| PInt32 "32 word"
| PInt64 "64 word"

type_synonym UPowerDeviceProperties = "string \<rightharpoonup> UPowerDeviceProperty"

text \<open>\<^verbatim>\<open>std::get<T>\<close> throws \<^verbatim>\<open>std::bad_variant_access\<close> when the variant holds another type.\<close>

datatype error = bad_variant_access

definition get_uint32 :: "UPowerDeviceProperty \<Rightarrow> error + 32 word" where
  "get_uint32 v = (case v of PUInt32 w \<Rightarrow> Inr w | _ \<Rightarrow> Inl bad_variant_access)"

definition get_double :: "UPowerDeviceProperty \<Rightarrow> error + real" where
  "get_double v = (case v of PDouble x \<Rightarrow> Inr x | _ \<Rightarrow> Inl bad_variant_access)"

text \<open>
  The three blocks of \<^verbatim>\<open>processBatteryProperties\<close>. Each returns the calls it makes on the
  monitor, or the exception it throws.
\<close>

definition stateBlock :: "UPowerDeviceProperties \<Rightarrow> error + call list" where
  "stateBlock properties =
     (case properties ''State'' of
        None \<Rightarrow> Inr []
      | Some v \<Rightarrow>
          (case get_uint32 v of
             Inl e \<Rightarrow> Inl e
           | Inr state \<Rightarrow>
               Inr (if state = 1 then [SetBatteryState Charging]
                    else if state = 2 then [SetBatteryState Discharging]
                    else if state = 4 \<or> state = 5 then [SetBatteryState Idle]
                    else [])))"

definition limitsBlock :: "UPowerDeviceProperties \<Rightarrow> error + call list" where
  "limitsBlock properties =
     (case properties ''EnergyEmpty'' of
        None \<Rightarrow> Inr []
      | Some v \<Rightarrow>
          (case get_double v of
             Inl e \<Rightarrow> Inl e
           | Inr eEmpty \<Rightarrow>
               (case properties ''EnergyFull'' of
                  None \<Rightarrow> Inr []
                | Some w \<Rightarrow>
                    (case get_double w of
                       Inl e \<Rightarrow> Inl e
                     | Inr eFull \<Rightarrow> Inr [SetBatteryLimits eEmpty eFull]))))"

definition energyBlock :: "UPowerDeviceProperties \<Rightarrow> error + call list" where
  "energyBlock properties =
     (case properties ''Energy'' of
        None \<Rightarrow> Inr []
      | Some v \<Rightarrow>
          (case get_double v of
             Inl e \<Rightarrow> Inl e
           | Inr x \<Rightarrow> Inr [UpdateEnergy x]))"

text \<open>
  The calls made on the monitor, in the order they are made, and the exception that ended
  the function, if any.
\<close>

definition processBatteryProperties :: "UPowerDeviceProperties \<Rightarrow> call list \<times> error option" where
  "processBatteryProperties properties =
     (case stateBlock properties of
        Inl e \<Rightarrow> ([], Some e)
      | Inr calls1 \<Rightarrow>
          (case limitsBlock properties of
             Inl e \<Rightarrow> (calls1, Some e)
           | Inr calls2 \<Rightarrow>
               (case energyBlock properties of
                  Inl e \<Rightarrow> (calls1 @ calls2, Some e)
                | Inr calls3 \<Rightarrow> (calls1 @ calls2 @ calls3, None))))"

text \<open>
  A notification lists its properties in some order; the \<^verbatim>\<open>unordered_map\<close> that
  \<^verbatim>\<open>processBatteryProperties\<close> receives is the mapping of the names to the values (the
  first value, should a name be listed twice).
\<close>

definition propertiesOf :: "(string \<times> UPowerDeviceProperty) list \<Rightarrow> UPowerDeviceProperties" where
  "propertiesOf notification = map_of notification"

text \<open>
  The block of \<^verbatim>\<open>processBatteryProperties\<close> that makes a call: 0 for the State block, 1
  for the limits, 2 for the energy (\<open>SetPowerState\<close> is made by none of them).
\<close>

fun callBlock :: "call \<Rightarrow> nat" where
  "callBlock (SetPowerState p) = 0"
| "callBlock (SetBatteryState b) = 0"
| "callBlock (SetBatteryLimits x y) = 1"
| "callBlock (UpdateEnergy x) = 2"

subsection \<open>The formatter as the specification words it\<close>

text \<open>
  Truncate to whole seconds, take hours, minutes and remainder seconds, each after
  subtracting the larger units, and emit the token of every unit that is not zero.
\<close>

definition unit_token :: "int \<Rightarrow> char \<Rightarrow> string" where
  "unit_token n c = (if n \<noteq> 0 then dec_int n @ [c] else [])"

definition formatRelTime_spec :: "int \<Rightarrow> int \<Rightarrow> string" where
  "formatRelTime_spec per duration =
     (let t = duration sdiv per;
          h = t sdiv 3600;
          m = (t - h * 3600) sdiv 60;
          s = t - h * 3600 - m * 60
      in unit_token h (CHR ''h'') @ unit_token m (CHR ''m'') @ unit_token s (CHR ''s''))"

subsection \<open>The rate formula as the specification words it\<close>


section \<open>Properties\<close>

subsection \<open>Arithmetic of the duration formatter\<close>

lemma sdiv_nonneg: "0 \<le> a \<Longrightarrow> 0 < b \<Longrightarrow> a sdiv b = a div (b::int)"
  by (simp add: signed_divide_int_def sgn_if)

lemma sdiv_neg: "a < 0 \<Longrightarrow> 0 < b \<Longrightarrow> a sdiv b = - ((- a) div (b::int))"
  by (simp add: signed_divide_int_def sgn_if)

lemma hours_rest: "(t::int) - t div 3600 * 3600 = t mod 3600"
  by (simp add: minus_div_mult_eq_mod)

lemma minutes_part: "(t::int) div 60 - t div 3600 * 60 = (t mod 3600) div 60"
proof -
  have g: "(r + q * 60) div 60 = q + r div 60" for r q :: int by simp
  have "t = t mod 3600 + (t div 3600 * 60) * 60" by simp
  then have "t div 60 = (t mod 3600 + (t div 3600 * 60) * 60) div 60"
    by (rule arg_cong [where f = "\<lambda>x. x div 60"])
  also have "\<dots> = t div 3600 * 60 + (t mod 3600) div 60" by (rule g)
  finally show ?thesis by simp
qed

lemma seconds_part: "(t::int) - t div 3600 * 3600 - (t mod 3600) div 60 * 60 = (t mod 3600) mod 60"
  by (simp add: hours_rest minus_div_mult_eq_mod)


lemma units_nonneg:
  assumes "(0::int) \<le> t"
  shows "t sdiv 3600 = t div 3600"
    and "t sdiv 60 - t sdiv 3600 * 60 = (t mod 3600) div 60"
    and "t - t sdiv 3600 * 3600 - (t sdiv 60 - t sdiv 3600 * 60) * 60 = (t mod 3600) mod 60"
    and "(t - t sdiv 3600 * 3600) sdiv 60 = (t mod 3600) div 60"
    and "t - t sdiv 3600 * 3600 - (t - t sdiv 3600 * 3600) sdiv 60 * 60 = (t mod 3600) mod 60"
proof -
  show h: "t sdiv 3600 = t div 3600" using assms by (simp add: sdiv_nonneg)
  have m0: "t sdiv 60 = t div 60" using assms by (simp add: sdiv_nonneg)
  show m: "t sdiv 60 - t sdiv 3600 * 60 = (t mod 3600) div 60"
    unfolding h m0 by (rule minutes_part)
  show "t - t sdiv 3600 * 3600 - (t sdiv 60 - t sdiv 3600 * 60) * 60 = (t mod 3600) mod 60"
    unfolding m unfolding h by (rule seconds_part)
  have r: "0 \<le> t mod 3600" by simp
  show m': "(t - t sdiv 3600 * 3600) sdiv 60 = (t mod 3600) div 60"
    unfolding h hours_rest using r by (simp add: sdiv_nonneg)
  show "t - t sdiv 3600 * 3600 - (t - t sdiv 3600 * 3600) sdiv 60 * 60 = (t mod 3600) mod 60"
    unfolding m' unfolding h by (rule seconds_part)
qed

lemma units_neg:
  assumes "(t::int) < 0"
  shows "t sdiv 3600 \<le> 0"
    and "t sdiv 60 - t sdiv 3600 * 60 \<le> 0"
    and "t - t sdiv 3600 * 3600 - (t sdiv 60 - t sdiv 3600 * 60) * 60 \<le> 0"
proof -
  have h: "t sdiv 3600 = - ((- t) div 3600)" using assms by (simp add: sdiv_neg)
  have m: "t sdiv 60 = - ((- t) div 60)" using assms by (simp add: sdiv_neg)
  have hn: "0 \<le> (- t) div 3600" using assms by (simp add: pos_imp_zdiv_nonneg_iff)
  have mn: "0 \<le> ((- t) mod 3600) div 60" by (simp add: pos_imp_zdiv_nonneg_iff)
  have sn: "0 \<le> ((- t) mod 3600) mod 60" by simp
  show "t sdiv 3600 \<le> 0" unfolding h using hn by simp
  have "t sdiv 60 - t sdiv 3600 * 60 = - ((- t) div 60 - (- t) div 3600 * 60)"
    unfolding h m by simp
  then have m': "t sdiv 60 - t sdiv 3600 * 60 = - (((- t) mod 3600) div 60)"
    by (simp only: minutes_part)
  show "t sdiv 60 - t sdiv 3600 * 60 \<le> 0" unfolding m' using mn by simp
  have "t - t sdiv 3600 * 3600 - (t sdiv 60 - t sdiv 3600 * 60) * 60
      = - ((- t) - (- t) div 3600 * 3600 - ((- t) mod 3600) div 60 * 60)"
    unfolding m' unfolding h by simp
  then have s': "t - t sdiv 3600 * 3600 - (t sdiv 60 - t sdiv 3600 * 60) * 60
      = - (((- t) mod 3600) mod 60)"
    by (simp only: seconds_part)
  show "t - t sdiv 3600 * 3600 - (t sdiv 60 - t sdiv 3600 * 60) * 60 \<le> 0"
    unfolding s' using sn by simp
qed


lemma pos_iff_nonzero: "(0::int) \<le> x \<Longrightarrow> (0 < x) = (x \<noteq> 0)"
  by arith

lemma formatRelTime_general:
  assumes "0 < per"
  shows "formatRelTime per d = (if 0 \<le> d then formatRelTime_spec per d else [])"
proof (cases "0 \<le> d")
  case True
  define t where "t = d sdiv per"
  have t: "0 \<le> t" unfolding t_def using True assms by (simp add: sdiv_nonneg pos_imp_zdiv_nonneg_iff)
  define H where "H = t div 3600"
  define M where "M = (t mod 3600) div 60"
  define S where "S = (t mod 3600) mod 60"
  have u1: "t sdiv 3600 = H" unfolding H_def by (rule units_nonneg [OF t])
  have u2: "t sdiv 60 - H * 60 = M" unfolding M_def u1 [symmetric] by (rule units_nonneg [OF t])
  have u3: "t - H * 3600 - M * 60 = S"
    unfolding S_def u2 [symmetric] unfolding u1 [symmetric] by (rule units_nonneg [OF t])
  have u4: "(t - H * 3600) sdiv 60 = M" unfolding M_def u1 [symmetric] by (rule units_nonneg [OF t])
  have hn: "(0 < H) = (H \<noteq> 0)"
    unfolding H_def using t by (intro pos_iff_nonzero) (simp add: pos_imp_zdiv_nonneg_iff)
  have mn: "(0 < M) = (M \<noteq> 0)"
    unfolding M_def by (intro pos_iff_nonzero) (simp add: pos_imp_zdiv_nonneg_iff)
  have sn: "(0 < S) = (S \<noteq> 0)"
    unfolding S_def by (intro pos_iff_nonzero) simp
  have z: "t = 0 \<Longrightarrow> H = 0 \<and> M = 0 \<and> S = 0"
    unfolding H_def M_def S_def by simp
  have "formatRelTime per d = formatRelTime_spec per d"
    unfolding formatRelTime_def formatRelTime_spec_def Let_def t_def [symmetric]
    unfolding u1 unfolding u2 u4 unfolding u3 unfolding unit_token_def hn mn sn
    using z by (cases "t = 0") simp_all
  with True show ?thesis by simp
next
  case False
  then have "d sdiv per = - ((- d) div per)" using assms by (simp add: sdiv_neg)
  moreover have "0 \<le> (- d) div per" using False assms by (simp add: pos_imp_zdiv_nonneg_iff)
  ultimately have t: "d sdiv per \<le> 0" by simp
  show ?thesis
  proof (cases "d sdiv per = 0")
    case True then show ?thesis using False by (simp add: formatRelTime_def)
  next
    case F: False
    with t have "d sdiv per < 0" by simp
    from units_neg [OF this] have
      "\<not> 0 < d sdiv per sdiv 3600"
      "\<not> 0 < d sdiv per sdiv 60 - d sdiv per sdiv 3600 * 60"
      "\<not> 0 < d sdiv per - d sdiv per sdiv 3600 * 3600 -
          (d sdiv per sdiv 60 - d sdiv per sdiv 3600 * 60) * 60"
      by simp_all
    then have "formatRelTime per d = []"
      unfolding formatRelTime_def Let_def by (simp only: if_False if_True F refl)
    then show ?thesis using False by simp
  qed
qed


text \<open>
  C6 (as amended). The relative-duration formatter is a pure function. For every duration
  that is not negative it truncates to whole seconds, decomposes into hours, minutes and
  remainder seconds and concatenates exactly the tokens of the units that are not zero, in
  the order h, m, s with no separator, so a zero duration gives the empty string. For
  every negative duration it returns the empty string: a token is emitted only for a
  positive unit. In particular 0 seconds gives "", 3661 seconds "1h1m1s", 90 seconds
  "1m30s" and 45 seconds "45s".
\<close>

theorem formatRelTime_tokens:
  assumes "0 < per"
  shows "formatRelTime per d = (if 0 \<le> d then formatRelTime_spec per d else []) \<and>
         formatRelTime 1 0 = [] \<and>
         formatRelTime 1 3661 = ''1h1m1s'' \<and>
         formatRelTime 1 90 = ''1m30s'' \<and>
         formatRelTime 1 45 = ''45s''"
proof -
  have e1: "formatRelTime 1 0 = []" by code_simp
  have e2: "formatRelTime 1 3661 = ''1h1m1s''" by code_simp
  have e3: "formatRelTime 1 90 = ''1m30s''" by code_simp
  have e4: "formatRelTime 1 45 = ''45s''" by code_simp
  from formatRelTime_general [OF assms, of d] e1 e2 e3 e4 show ?thesis by simp
qed

theorem formatRelTime_tokens_witness:
  "(0::int) < 1000 \<and> formatRelTime 1000 90500 = ''1m30s'' \<and> formatRelTime 1000 (- 90500) = []"
proof -
  have p: "(0::int) < 1000" by simp
  have s: "formatRelTime_spec 1000 90500 = ''1m30s''" by code_simp
  from formatRelTime_tokens [OF p, of 90500] formatRelTime_tokens [OF p, of "- 90500"] s
  show ?thesis by simp
qed

text \<open>
  The claim as stated fails for a negative duration: at -90 seconds the minutes are -1 and
  the remainder seconds are -30, both nonzero, and the formatter emits no token.
\<close>

theorem formatRelTime_negative_counterexample:
  "formatRelTime 1 (- 90) = [] \<and> formatRelTime_spec 1 (- 90) = ''-1m-30s'' \<and>
   formatRelTime 1 (- 90) \<noteq> formatRelTime_spec 1 (- 90)"
proof -
  have c: "formatRelTime 1 (- 90) = []" by code_simp
  have s: "formatRelTime_spec 1 (- 90) = ''-1m-30s''" by code_simp
  show ?thesis by (simp add: c s)
qed

subsection \<open>State and output of the entry points\<close>

lemma print_no_flags: "print clk s msg 0 = Some (printHead clk s msg @ endl)"
  by (simp add: print_def flags_and_def Let_def split: option.splits)

lemma printHead_msg: "msg \<noteq> [] \<Longrightarrow> printHead clk s msg = printHead clk s [] @ '' - '' @ msg"
  by (simp add: printHead_def Let_def)

lemma setBatteryState_state:
  "fst (setBatteryState clk b s) =
     (if b = Idle then s
      else s\<lparr>firstReading := None, readings := [], totalSuspendEnergy := 0\<rparr>)"
  by (cases b) (simp_all add: setBatteryState_def Let_def)

lemma setPowerState_state:
  "fst (setPowerState clk p s) =
     (case p of
        Suspended \<Rightarrow> s\<lparr>enterSuspendTime := Some (sysNow clk)\<rparr>
      | Awake \<Rightarrow> (if enterSuspendTime s = None then s
                  else s\<lparr>enterSuspendTime := None, printSuspendStats := True\<rparr>)
      | Hibernating \<Rightarrow> s)"
  by (cases p) (auto simp add: setPowerState_def Let_def split: option.splits)

text \<open>
  C2. In every state in which \<open>isSuspended\<close> holds, \<open>updateEnergy\<close> with any energy value
  returns the state as it was (so First Reading, the Sample Window and the suspend-energy
  accumulator are unchanged and no Reading is admitted) and writes nothing.
\<close>

theorem updateEnergy_suspended:
  "isSuspended s \<Longrightarrow> updateEnergy clk e s = (s, [])"
  by (simp add: updateEnergy_def)

theorem updateEnergy_suspended_witness:
  "isSuspended (fst (setPowerState \<lparr>sysNow = 5, relNow = 7, printStamp = ''T'', printRelNow = 7\<rparr>
        Suspended BatteryMonitor_init)) \<and>
   updateEnergy \<lparr>sysNow = 9, relNow = 11, printStamp = ''U'', printRelNow = 11\<rparr> 50
     (fst (setPowerState \<lparr>sysNow = 5, relNow = 7, printStamp = ''T'', printRelNow = 7\<rparr>
        Suspended BatteryMonitor_init)) =
   (BatteryMonitor_init\<lparr>enterSuspendTime := Some 5\<rparr>, [])"
proof -
  let ?s = "fst (setPowerState \<lparr>sysNow = 5, relNow = 7, printStamp = ''T'', printRelNow = 7\<rparr>
        Suspended BatteryMonitor_init)"
  have s: "?s = BatteryMonitor_init\<lparr>enterSuspendTime := Some 5\<rparr>"
    by (simp add: setPowerState_state)
  have h: "isSuspended ?s" by (simp add: s isSuspended_def)
  from updateEnergy_suspended [OF h] show ?thesis using h by (simp add: s)
qed

text \<open>
  C3. From every state, \<open>setBatteryState Idle\<close> returns the state unchanged (First Reading,
  Sample Window and suspend-energy accumulator included), while \<open>setBatteryState Charging\<close>
  and \<open>setBatteryState Discharging\<close> leave First Reading unset, the Sample Window empty
  and the suspend-energy accumulator 0.
\<close>

theorem setBatteryState_reset:
  "fst (setBatteryState clk Idle s) = s \<and>
   firstReading (fst (setBatteryState clk Charging s)) = None \<and>
   readings (fst (setBatteryState clk Charging s)) = [] \<and>
   totalSuspendEnergy (fst (setBatteryState clk Charging s)) = 0 \<and>
   firstReading (fst (setBatteryState clk Discharging s)) = None \<and>
   readings (fst (setBatteryState clk Discharging s)) = [] \<and>
   totalSuspendEnergy (fst (setBatteryState clk Discharging s)) = 0"
  by (simp add: setBatteryState_state)

text \<open>
  C7. With no suspend-entry timestamp recorded, \<open>setPowerState Awake\<close> changes nothing and
  writes nothing (the pending-suspend-report flag stays as it was). With a timestamp
  recorded it clears the timestamp, sets the pending-suspend-report flag and writes one
  line: time stamp and run time, then " - Resumed from D sleep", where D is the formatted
  duration from the suspend-entry time to now, in milliseconds.
\<close>

theorem setPowerState_Awake:
  "(enterSuspendTime s = None \<longrightarrow> setPowerState clk Awake s = (s, [])) \<and>
   (enterSuspendTime s = Some entered \<longrightarrow>
      setPowerState clk Awake s =
        (s\<lparr>enterSuspendTime := None, printSuspendStats := True\<rparr>,
         [Some (printHead clk s [] @ '' - Resumed from '' @
                formatRelTime 1000 (to_milliseconds (sysNow clk - entered)) @ '' sleep'' @ endl)]))"
  by (simp add: setPowerState_def print_no_flags printHead_msg Let_def) (simp add: printHead_def)

theorem setPowerState_Awake_witness:
  "setPowerState \<lparr>sysNow = 90000001000, relNow = 0, printStamp = ''T'', printRelNow = 0\<rparr> Awake
     BatteryMonitor_init = (BatteryMonitor_init, []) \<and>
   setPowerState \<lparr>sysNow = 90000001000, relNow = 0, printStamp = ''T'', printRelNow = 0\<rparr> Awake
     (BatteryMonitor_init\<lparr>enterSuspendTime := Some 1000\<rparr>) =
     (BatteryMonitor_init\<lparr>printSuspendStats := True\<rparr>,
      [Some (''T - Resumed from 1m30s sleep'' @ endl)])"
proof -
  let ?clk = "\<lparr>sysNow = 90000001000, relNow = 0, printStamp = ''T'', printRelNow = 0\<rparr>"
  have n: "enterSuspendTime BatteryMonitor_init = None" by (simp add: BatteryMonitor_init_def)
  have e: "enterSuspendTime (BatteryMonitor_init\<lparr>enterSuspendTime := Some 1000\<rparr>) = Some 1000"
    by simp
  have d: "formatRelTime 1000 (to_milliseconds (90000001000 - 1000)) = ''1m30s''" by code_simp
  have h: "printHead ?clk (BatteryMonitor_init\<lparr>enterSuspendTime := Some 1000\<rparr>) [] = ''T''"
    by (simp add: printHead_def BatteryMonitor_init_def)
  from setPowerState_Awake [where s = BatteryMonitor_init and clk = ?clk] n
    setPowerState_Awake [where s = "BatteryMonitor_init\<lparr>enterSuspendTime := Some 1000\<rparr>"
      and entered = 1000 and clk = ?clk] e d h
  show ?thesis by (simp add: BatteryMonitor_init_def)
qed

text \<open>
  C8. \<open>setBatteryLimits\<close> overwrites both Capacity Limits with the values given, whatever
  they are (also with full not above empty); a second call leaves the state that the second
  call alone would leave, so everything computed later sees only the latest pair; and no
  \<open>setBatteryState\<close> call changes the stored limits.
\<close>

theorem setBatteryLimits_overwrite:
  "setBatteryLimits eEmpty eFull s = s\<lparr>energyEmpty := Some eEmpty, energyFull := Some eFull\<rparr> \<and>
   setBatteryLimits eEmpty eFull (setBatteryLimits eEmpty0 eFull0 s) =
     setBatteryLimits eEmpty eFull s \<and>
   (\<forall>clk b. energyEmpty (fst (setBatteryState clk b s)) = energyEmpty s \<and>
            energyFull (fst (setBatteryState clk b s)) = energyFull s)"
  by (simp add: setBatteryLimits_def setBatteryState_state)



subsection \<open>Admitted readings\<close>


lemma flags_sleep:
  "\<not> flags_and (stat_or StatRelEnergy StatRate) StatEnergy"
  "flags_and (stat_or StatRelEnergy StatRate) StatRate"
  "\<not> flags_and (stat_or StatRelEnergy StatRate) StatAverageRate"
  "flags_and (stat_or StatRelEnergy StatRate) StatRelEnergy"
  by (simp_all add: flags_and_def flags_or_def stat_or_def)

lemma pushWindow_length: "length (pushWindow w r) = (if length w < 2 then length w + 1 else length w)"
  by (simp add: pushWindow_def)



lemma nth_length_snoc: "(y # zs @ [r]) ! length zs = last (y # zs)"
  by (induction zs arbitrary: y) simp_all

lemma updateEnergy_admitted:
  assumes "\<not> isSuspended s"
  shows "fst (updateEnergy clk e s) =
     s\<lparr>firstReading := (case firstReading s of None \<Rightarrow> Some (mkReading (clk, e)) | Some f \<Rightarrow> Some f),
       readings := pushWindow (readings s) (mkReading (clk, e)),
       totalSuspendEnergy :=
         (if printSuspendStats s \<and> readings s \<noteq> []
          then totalSuspendEnergy s + (e - energy (last (readings s)))
          else totalSuspendEnergy s),
       printSuspendStats := False\<rparr>"
proof -
  consider "readings s = []" | x where "readings s = [x]"
    | x y zs where "readings s = x # y # zs"
    by (cases "readings s"; cases "tl (readings s)") auto
  then show ?thesis
  proof cases
    case 1
    then show ?thesis using assms
      by (cases "firstReading s"; cases "printSuspendStats s")
         (simp_all add: updateEnergy_def Let_def pushWindow_def mkReading_def)
  next
    case 2
    then show ?thesis using assms
      by (cases "firstReading s"; cases "printSuspendStats s")
         (simp_all add: updateEnergy_def Let_def pushWindow_def mkReading_def)
  next
    case 3
    then show ?thesis using assms
      by (cases "firstReading s"; cases "printSuspendStats s")
         (simp_all add: updateEnergy_def Let_def pushWindow_def mkReading_def nth_length_snoc)
  qed
qed

lemma updateEnergy_window:
  "\<not> isSuspended s \<Longrightarrow>
   readings (fst (updateEnergy clk e s)) = pushWindow (readings s) (mkReading (clk, e))"
  by (simp add: updateEnergy_admitted)

lemma updateEnergy_keeps_awake:
  "isSuspended (fst (updateEnergy clk e s)) = isSuspended s"
proof (cases "isSuspended s")
  case True
  then show ?thesis by (simp add: updateEnergy_def)
next
  case False
  have "enterSuspendTime (fst (updateEnergy clk e s)) = enterSuspendTime s"
    by (simp add: updateEnergy_admitted [OF False])
  then show ?thesis by (simp add: isSuspended_def)
qed


subsection \<open>The Sample Window along a run\<close>

lemma perform_window_bound:
  "length (readings s) \<le> 2 \<Longrightarrow> length (readings (fst (perform clk c s))) \<le> 2"
proof (cases c)
  case (SetPowerState p)
  then show "length (readings s) \<le> 2 \<Longrightarrow> ?thesis"
    by (cases p) (simp_all add: perform_def setPowerState_state)
next
  case (SetBatteryState b)
  then show "length (readings s) \<le> 2 \<Longrightarrow> ?thesis"
    by (simp add: perform_def setBatteryState_state)
next
  case (SetBatteryLimits x y)
  then show "length (readings s) \<le> 2 \<Longrightarrow> ?thesis"
    by (simp add: perform_def setBatteryLimits_def)
next
  case (UpdateEnergy e)
  then show "length (readings s) \<le> 2 \<Longrightarrow> ?thesis"
  proof (cases "isSuspended s")
    case True
    assume "length (readings s) \<le> 2"
    then show ?thesis using True UpdateEnergy by (simp add: perform_def updateEnergy_def)
  next
    case False
    assume "length (readings s) \<le> 2"
    then show ?thesis using UpdateEnergy
      by (simp add: perform_def updateEnergy_window [OF False] pushWindow_length)
  qed
qed

lemma run_Cons: "fst (run ((clk, c) # cs) s) = fst (run cs (fst (perform clk c s)))"
  by (simp add: case_prod_unfold Let_def)

lemma run_window_bound:
  "length (readings s) \<le> 2 \<Longrightarrow> length (readings (fst (run cs s))) \<le> 2"
proof (induction cs arbitrary: s)
  case Nil
  then show ?case by simp
next
  case (Cons a cs)
  obtain clk c where a: "a = (clk, c)" by (cases a)
  from Cons.prems have "length (readings (fst (perform clk c s))) \<le> 2"
    by (rule perform_window_bound)
  then show ?case unfolding a run_Cons by (rule Cons.IH)
qed

lemma pushWindow_lastTwo: "length w \<le> 2 \<Longrightarrow> pushWindow w r = lastTwo (w @ [r])"
  by (cases w) (auto simp add: pushWindow_def lastTwo_def drop_Cons')

lemma lastTwo_append: "lastTwo (lastTwo a @ b) = lastTwo (a @ b)"
proof (cases "length a \<le> 2")
  case True
  then show ?thesis by (simp add: lastTwo_def)
next
  case False
  then have "length a + length b - Suc (Suc (length a - 2)) + (length a - 2) =
      length a + length b - 2" by arith
  then show ?thesis by (simp add: lastTwo_def)
qed

lemma run_updates_window:
  "\<not> isSuspended s \<Longrightarrow> length (readings s) \<le> 2 \<Longrightarrow>
   readings (fst (run (map (\<lambda>ce. (fst ce, UpdateEnergy (snd ce))) xs) s)) =
     lastTwo (readings s @ map mkReading xs)"
proof (induction xs arbitrary: s)
  case Nil
  then show ?case by (simp add: lastTwo_def)
next
  case (Cons x xs)
  let ?s1 = "fst (updateEnergy (fst x) (snd x) s)"
  have w: "readings ?s1 = lastTwo (readings s @ [mkReading x])"
    using Cons.prems by (simp add: updateEnergy_window pushWindow_lastTwo)
  have a: "\<not> isSuspended ?s1" using Cons.prems(1) by (simp add: updateEnergy_keeps_awake)
  have l: "length (readings ?s1) \<le> 2" unfolding w by (simp add: lastTwo_def)
  have "readings (fst (run (map (\<lambda>ce. (fst ce, UpdateEnergy (snd ce))) (x # xs)) s)) =
        readings (fst (run (map (\<lambda>ce. (fst ce, UpdateEnergy (snd ce))) xs) ?s1))"
    by (simp add: run_Cons perform_def del: run.simps)
  also have "\<dots> = lastTwo (readings ?s1 @ map mkReading xs)" using a l by (rule Cons.IH)
  also have "\<dots> = lastTwo (readings s @ map mkReading (x # xs))"
    unfolding w lastTwo_append by simp
  finally show ?case .
qed

text \<open>
  C4. After every sequence of entry-point calls on a new monitor the Sample Window holds at
  most 2 Readings. An admitted \<open>updateEnergy\<close> inserts by appending and then trimming
  from the front. After any sequence of \<open>updateEnergy\<close> calls made while not suspended, on
  a window of at most 2 entries, the window holds exactly the last two (or fewer, if there
  are fewer) of the old entries followed by the readings of the calls, in arrival order,
  oldest first.
\<close>

theorem sample_window:
  "length (readings (fst (run cs BatteryMonitor_init))) \<le> 2 \<and>
   (\<not> isSuspended s \<longrightarrow>
      readings (fst (updateEnergy clk e s)) =
        (if length (readings s @ [mkReading (clk, e)]) > 2
         then tl (readings s @ [mkReading (clk, e)]) else readings s @ [mkReading (clk, e)])) \<and>
   (\<not> isSuspended s \<and> length (readings s) \<le> 2 \<longrightarrow>
      readings (fst (run (map (\<lambda>ce. (fst ce, UpdateEnergy (snd ce))) xs) s)) =
        lastTwo (readings s @ map mkReading xs))"
proof (intro conjI impI)
  have "length (readings BatteryMonitor_init) \<le> 2" by (simp add: BatteryMonitor_init_def)
  then show "length (readings (fst (run cs BatteryMonitor_init))) \<le> 2"
    by (rule run_window_bound)
next
  assume a: "\<not> isSuspended s"
  show "readings (fst (updateEnergy clk e s)) =
        (if length (readings s @ [mkReading (clk, e)]) > 2
         then tl (readings s @ [mkReading (clk, e)]) else readings s @ [mkReading (clk, e)])"
    unfolding updateEnergy_window [OF a] pushWindow_def by (rule refl)
next
  assume "\<not> isSuspended s \<and> length (readings s) \<le> 2"
  then show "readings (fst (run (map (\<lambda>ce. (fst ce, UpdateEnergy (snd ce))) xs) s)) =
        lastTwo (readings s @ map mkReading xs)"
    by (simp add: run_updates_window)
qed

theorem sample_window_witness:
  "\<not> isSuspended resumed \<and> length (readings resumed) \<le> 2 \<and>
   readings (fst (updateEnergy (clockAt 3600) 49 resumed)) =
     [mkReading (clockAt 0, 50), mkReading (clockAt 3600, 49)] \<and>
   readings (fst (run (map (\<lambda>ce. (fst ce, UpdateEnergy (snd ce)))
       [(clockAt 3600, 49), (clockAt 7200, 48), (clockAt 7300, 47)]) resumed)) =
     [mkReading (clockAt 7200, 48), mkReading (clockAt 7300, 47)]"
proof -
  have h: "\<not> isSuspended resumed" by code_simp
  have l: "length (readings resumed) \<le> 2" by code_simp
  have r: "readings resumed = [mkReading (clockAt 0, 50)]" by code_simp
  note t = sample_window [where s = resumed]
  from t [where clk = "clockAt 3600" and e = 49] h
  have a: "readings (fst (updateEnergy (clockAt 3600) 49 resumed)) =
        (if length (readings resumed @ [mkReading (clockAt 3600, 49)]) > 2
         then tl (readings resumed @ [mkReading (clockAt 3600, 49)])
         else readings resumed @ [mkReading (clockAt 3600, 49)])" by blast
  from t [where xs = "[(clockAt 3600, 49), (clockAt 7200, 48), (clockAt 7300, 47)]"] h l
  have b: "readings (fst (run (map (\<lambda>ce. (fst ce, UpdateEnergy (snd ce)))
       [(clockAt 3600, 49), (clockAt 7200, 48), (clockAt 7300, 47)]) resumed)) =
       lastTwo (readings resumed @
         map mkReading [(clockAt 3600, 49), (clockAt 7200, 48), (clockAt 7300, 47)])" by blast
  show ?thesis using h l a b by (simp add: r lastTwo_def)
qed

subsection \<open>Calls that admit no reading\<close>

lemma run_append: "fst (run (xs @ ys) s) = fst (run ys (fst (run xs s)))"
proof (induction xs arbitrary: s)
  case Nil
  then show ?case by simp
next
  case (Cons a xs)
  obtain clk c where a: "a = (clk, c)" by (cases a)
  show ?case unfolding a append_Cons run_Cons by (rule Cons.IH)
qed

lemma discardsReadings_append:
  "discardsReadings (xs @ ys) s =
     (discardsReadings xs s \<and> discardsReadings ys (fst (run xs s)))"
proof (induction xs arbitrary: s)
  case Nil
  then show ?case by simp
next
  case (Cons a xs)
  obtain clk c where a: "a = (clk, c)" by (cases a)
  show ?case unfolding a append_Cons run_Cons discardsReadings.simps Cons.IH by simp
qed

lemma discarded_keeps_pending:
  assumes "case c of UpdateEnergy e \<Rightarrow> isSuspended s | _ \<Rightarrow> True"
    and "isSuspended s \<or> printSuspendStats s"
  shows "isSuspended (fst (perform clk c s)) \<or> printSuspendStats (fst (perform clk c s))"
proof (cases c)
  case (SetPowerState p)
  then show ?thesis using assms(2)
    by (cases p) (auto simp add: perform_def setPowerState_state isSuspended_def)
next
  case (SetBatteryState b)
  then show ?thesis using assms(2)
    by (auto simp add: perform_def setBatteryState_state isSuspended_def)
next
  case (SetBatteryLimits x y)
  then show ?thesis using assms(2)
    by (auto simp add: perform_def setBatteryLimits_def isSuspended_def)
next
  case (UpdateEnergy e)
  then show ?thesis using assms by (simp add: perform_def updateEnergy_def)
qed

lemma discarded_keeps_cleared:
  assumes "case c of UpdateEnergy e \<Rightarrow> isSuspended s | _ \<Rightarrow> True"
    and "firstReading s = None \<and> readings s = [] \<and> totalSuspendEnergy s = 0"
  shows "firstReading (fst (perform clk c s)) = None \<and> readings (fst (perform clk c s)) = [] \<and>
         totalSuspendEnergy (fst (perform clk c s)) = 0"
proof (cases c)
  case (SetPowerState p)
  then show ?thesis using assms(2)
    by (cases p) (simp_all add: perform_def setPowerState_state)
next
  case (SetBatteryState b)
  then show ?thesis using assms(2)
    by (simp add: perform_def setBatteryState_state)
next
  case (SetBatteryLimits x y)
  then show ?thesis using assms(2)
    by (simp add: perform_def setBatteryLimits_def)
next
  case (UpdateEnergy e)
  then show ?thesis using assms by (simp add: perform_def updateEnergy_def)
qed

lemma run_keeps_pending:
  "discardsReadings cs s \<Longrightarrow> isSuspended s \<or> printSuspendStats s \<Longrightarrow>
   isSuspended (fst (run cs s)) \<or> printSuspendStats (fst (run cs s))"
proof (induction cs arbitrary: s)
  case Nil
  then show ?case by simp
next
  case (Cons a cs)
  obtain clk c where a: "a = (clk, c)" by (cases a)
  from Cons.prems(1) have d: "case c of UpdateEnergy e \<Rightarrow> isSuspended s | _ \<Rightarrow> True"
    and r: "discardsReadings cs (fst (perform clk c s))" by (simp_all add: a)
  from d Cons.prems(2) have "isSuspended (fst (perform clk c s)) \<or>
      printSuspendStats (fst (perform clk c s))" by (rule discarded_keeps_pending)
  with r show ?case unfolding a run_Cons by (rule Cons.IH)
qed

lemma run_keeps_cleared:
  "discardsReadings cs s \<Longrightarrow>
   firstReading s = None \<and> readings s = [] \<and> totalSuspendEnergy s = 0 \<Longrightarrow>
   firstReading (fst (run cs s)) = None \<and> readings (fst (run cs s)) = [] \<and>
   totalSuspendEnergy (fst (run cs s)) = 0"
proof (induction cs arbitrary: s)
  case Nil
  then show ?case by simp
next
  case (Cons a cs)
  obtain clk c where a: "a = (clk, c)" by (cases a)
  from Cons.prems(1) have d: "case c of UpdateEnergy e \<Rightarrow> isSuspended s | _ \<Rightarrow> True"
    and r: "discardsReadings cs (fst (perform clk c s))" by (simp_all add: a)
  from d Cons.prems(2) have "firstReading (fst (perform clk c s)) = None \<and>
      readings (fst (perform clk c s)) = [] \<and> totalSuspendEnergy (fst (perform clk c s)) = 0"
    by (rule discarded_keeps_cleared)
  with r show ?case unfolding a run_Cons by (rule Cons.IH)
qed

subsection \<open>Suspend-energy accounting\<close>



subsection \<open>A reset between a suspend and the next admitted reading\<close>

lemma updateEnergy_sleep_report:
  assumes "\<not> isSuspended s" and "printSuspendStats s"
    and "firstReading s = None" and "readings s = []"
  shows "updateEnergy clk e s =
     (s\<lparr>firstReading := Some (mkReading (clk, e)), readings := [mkReading (clk, e)],
        printSuspendStats := False\<rparr>,
      [Some (printHead clk (s\<lparr>firstReading := Some (mkReading (clk, e))\<rparr>) [] @
             '' - Sleep energy use'' @ endl)])"
  using assms
  by (simp add: updateEnergy_def Let_def print_def flags_sleep mkReading_def printHead_def)

text \<open>
  C10. \<open>setBatteryState Charging\<close> and \<open>setBatteryState Discharging\<close> leave the
  pending-suspend-report flag and the suspend-entry timestamp as they were. So in every
  run that starts with a suspend, goes on with calls among which is such a reset and none
  of which admits a reading, and ends not suspended (so a resume has happened), the flag
  is set, and the next reading writes the line " - Sleep energy use" with no statistics
  field, clears the flag, leaves a window of that one reading and does not change the
  suspend-energy accumulator.
\<close>

theorem reset_keeps_pending_report:
  "printSuspendStats (fst (setBatteryState clk Charging s)) = printSuspendStats s \<and>
   enterSuspendTime (fst (setBatteryState clk Charging s)) = enterSuspendTime s \<and>
   printSuspendStats (fst (setBatteryState clk Discharging s)) = printSuspendStats s \<and>
   enterSuspendTime (fst (setBatteryState clk Discharging s)) = enterSuspendTime s \<and>
   ((clkR, SetBatteryState b) \<in> set cs \<and> b \<noteq> Idle \<and>
    discardsReadings cs (fst (setPowerState clkS Suspended s)) \<and>
    \<not> isSuspended (fst (run cs (fst (setPowerState clkS Suspended s)))) \<longrightarrow>
      printSuspendStats (fst (run cs (fst (setPowerState clkS Suspended s)))) \<and>
      updateEnergy clkU e (fst (run cs (fst (setPowerState clkS Suspended s)))) =
        ((fst (run cs (fst (setPowerState clkS Suspended s))))
           \<lparr>firstReading := Some (mkReading (clkU, e)), readings := [mkReading (clkU, e)],
            printSuspendStats := False\<rparr>,
         [Some (printHead clkU
                  ((fst (run cs (fst (setPowerState clkS Suspended s))))
                     \<lparr>firstReading := Some (mkReading (clkU, e))\<rparr>) [] @
                '' - Sleep energy use'' @ endl)]) \<and>
      totalSuspendEnergy (fst (updateEnergy clkU e (fst (run cs (fst (setPowerState clkS Suspended s)))))) =
        totalSuspendEnergy (fst (run cs (fst (setPowerState clkS Suspended s)))))"
proof -
  let ?s1 = "fst (setPowerState clkS Suspended s)"
  let ?s2 = "fst (run cs ?s1)"
  have frame: "printSuspendStats (fst (setBatteryState clk Charging s)) = printSuspendStats s \<and>
   enterSuspendTime (fst (setBatteryState clk Charging s)) = enterSuspendTime s \<and>
   printSuspendStats (fst (setBatteryState clk Discharging s)) = printSuspendStats s \<and>
   enterSuspendTime (fst (setBatteryState clk Discharging s)) = enterSuspendTime s"
    by (simp add: setBatteryState_state)
  have main: "printSuspendStats ?s2 \<and>
      updateEnergy clkU e ?s2 =
        (?s2\<lparr>firstReading := Some (mkReading (clkU, e)), readings := [mkReading (clkU, e)],
            printSuspendStats := False\<rparr>,
         [Some (printHead clkU (?s2\<lparr>firstReading := Some (mkReading (clkU, e))\<rparr>) [] @
                '' - Sleep energy use'' @ endl)]) \<and>
      totalSuspendEnergy (fst (updateEnergy clkU e ?s2)) = totalSuspendEnergy ?s2"
    if m: "(clkR, SetBatteryState b) \<in> set cs" and b: "b \<noteq> Idle"
      and d: "discardsReadings cs ?s1" and a: "\<not> isSuspended ?s2"
  proof -
    have "isSuspended ?s1" by (simp add: setPowerState_state isSuspended_def)
    then have "isSuspended ?s1 \<or> printSuspendStats ?s1" by simp
    with d have "isSuspended ?s2 \<or> printSuspendStats ?s2" by (rule run_keeps_pending)
    with a have p: "printSuspendStats ?s2" by simp
    from m obtain pre post where cs: "cs = pre @ (clkR, SetBatteryState b) # post"
      by (auto simp add: in_set_conv_decomp)
    let ?s3 = "fst (perform clkR (SetBatteryState b) (fst (run pre ?s1)))"
    have s2: "?s2 = fst (run post ?s3)"
      unfolding cs run_append run_Cons by (rule refl)
    from d have dp: "discardsReadings post ?s3"
      unfolding cs discardsReadings_append by simp
    have "firstReading ?s3 = None \<and> readings ?s3 = [] \<and> totalSuspendEnergy ?s3 = 0"
      using b by (simp add: perform_def setBatteryState_state)
    with dp have "firstReading (fst (run post ?s3)) = None \<and> readings (fst (run post ?s3)) = [] \<and>
        totalSuspendEnergy (fst (run post ?s3)) = 0" by (rule run_keeps_cleared)
    then have c: "firstReading ?s2 = None" "readings ?s2 = []" unfolding s2 by simp_all
    note u = updateEnergy_sleep_report [OF a p c]
    show ?thesis using p by (simp add: u)
  qed
  from frame main show ?thesis by blast
qed

theorem reset_keeps_pending_report_witness:
  "(clockAt 20, SetBatteryState Discharging) \<in> set resetWhileAsleep \<and> Discharging \<noteq> Idle \<and>
   discardsReadings resetWhileAsleep (fst (setPowerState (clockAt 10) Suspended measuring)) \<and>
   \<not> isSuspended (fst (run resetWhileAsleep (fst (setPowerState (clockAt 10) Suspended measuring)))) \<and>
   updateEnergy (clockAt 105) 49
     (fst (run resetWhileAsleep (fst (setPowerState (clockAt 10) Suspended measuring)))) =
     (\<lparr>energyEmpty = None, energyFull = None,
       firstReading = Some (mkReading (clockAt 105, 49)),
       readings = [mkReading (clockAt 105, 49)],
       printSuspendStats = False, enterSuspendTime = None, totalSuspendEnergy = 0\<rparr>,
      [Some (''T - Sleep energy use'' @ endl)])"
proof -
  let ?s2 = "fst (run resetWhileAsleep (fst (setPowerState (clockAt 10) Suspended measuring)))"
  have h: "(clockAt 20, SetBatteryState Discharging) \<in> set resetWhileAsleep \<and> Discharging \<noteq> Idle \<and>
   discardsReadings resetWhileAsleep (fst (setPowerState (clockAt 10) Suspended measuring)) \<and>
   \<not> isSuspended ?s2"
    by code_simp
  have v: "(?s2\<lparr>firstReading := Some (mkReading (clockAt 105, 49)),
               readings := [mkReading (clockAt 105, 49)], printSuspendStats := False\<rparr>,
         [Some (printHead (clockAt 105) (?s2\<lparr>firstReading := Some (mkReading (clockAt 105, 49))\<rparr>) [] @
                '' - Sleep energy use'' @ endl)]) =
     (\<lparr>energyEmpty = None, energyFull = None,
       firstReading = Some (mkReading (clockAt 105, 49)),
       readings = [mkReading (clockAt 105, 49)],
       printSuspendStats = False, enterSuspendTime = None, totalSuspendEnergy = 0\<rparr>,
      [Some (''T - Sleep energy use'' @ endl)])"
    by code_simp
  from reset_keeps_pending_report [where cs = resetWhileAsleep and clkR = "clockAt 20"
      and b = Discharging and clkS = "clockAt 10" and s = measuring and clkU = "clockAt 105"
      and e = 49] h
  have "updateEnergy (clockAt 105) 49 ?s2 =
        (?s2\<lparr>firstReading := Some (mkReading (clockAt 105, 49)),
               readings := [mkReading (clockAt 105, 49)], printSuspendStats := False\<rparr>,
         [Some (printHead (clockAt 105) (?s2\<lparr>firstReading := Some (mkReading (clockAt 105, 49))\<rparr>) [] @
                '' - Sleep energy use'' @ endl)])" by blast
  then show ?thesis using h unfolding v by blast
qed

subsection \<open>The translation of a property notification\<close>

lemma get_uint32_Inr: "(get_uint32 v = Inr w) = (v = PUInt32 w)"
  by (cases v) (simp_all add: get_uint32_def)

lemma get_double_Inr: "(get_double v = Inr x) = (v = PDouble x)"
  by (cases v) (simp_all add: get_double_def)

lemma stateBlock_calls:
  "stateBlock properties = Inr cs \<Longrightarrow>
   (\<forall>c \<in> set cs. callBlock c = 0) \<and> length cs \<le> 1 \<and>
   (\<forall>p. SetPowerState p \<notin> set cs) \<and>
   (SetBatteryState b \<in> set cs \<longleftrightarrow>
      (\<exists>code. properties ''State'' = Some (PUInt32 code) \<and>
         (code = 1 \<and> b = Charging \<or> code = 2 \<and> b = Discharging \<or>
          (code = 4 \<or> code = 5) \<and> b = Idle)))"
  by (auto simp add: stateBlock_def get_uint32_Inr split: option.splits sum.splits if_splits)

lemma limitsBlock_calls:
  "limitsBlock properties = Inr cs \<Longrightarrow>
   (\<forall>c \<in> set cs. callBlock c = 1) \<and> length cs \<le> 1 \<and>
   (SetBatteryLimits x y \<in> set cs \<longleftrightarrow>
      properties ''EnergyEmpty'' = Some (PDouble x) \<and> properties ''EnergyFull'' = Some (PDouble y))"
  by (auto simp add: limitsBlock_def get_double_Inr split: option.splits sum.splits)

lemma energyBlock_calls:
  "energyBlock properties = Inr cs \<Longrightarrow>
   (\<forall>c \<in> set cs. callBlock c = 2) \<and> length cs \<le> 1 \<and>
   (UpdateEnergy x \<in> set cs \<longleftrightarrow> properties ''Energy'' = Some (PDouble x))"
  by (auto simp add: energyBlock_def get_double_Inr split: option.splits sum.splits)

lemma sorted_blocks:
  assumes "\<forall>c \<in> set c1. callBlock c = 0" "length c1 \<le> 1"
    and "\<forall>c \<in> set c2. callBlock c = 1" "length c2 \<le> 1"
    and "\<forall>c \<in> set c3. callBlock c = 2" "length c3 \<le> 1"
  shows "sorted (map callBlock (c1 @ c2 @ c3)) \<and> distinct (map callBlock (c1 @ c2 @ c3))"
proof -
  have s: "xs = [] \<or> (\<exists>x. xs = [x])" if "length xs \<le> 1" for xs :: "call list"
    using that by (cases xs) auto
  from s [OF assms(2)] s [OF assms(4)] s [OF assms(6)] assms(1,3,5)
  show ?thesis by auto
qed

text \<open>
  C9 (as amended). For every property mapping on which no \<^verbatim>\<open>std::get\<close> throws, the
  translation calls \<open>setBatteryState\<close> with Charging for State code 1, Discharging for
  code 2, Idle for codes 4 and 5 and makes no call for any other code; it calls
  \<open>setBatteryLimits\<close> with EnergyEmpty and EnergyFull exactly when both are present; it
  calls \<open>updateEnergy\<close> with Energy exactly when it is present; it never calls
  \<open>setPowerState\<close>; and the calls are made in the fixed order State, limits, Energy, at
  most one of each, whatever the order of the properties in the notification: two
  notifications that list the same properties in different orders give the same calls.
\<close>

theorem processBatteryProperties_calls:
  assumes "snd (processBatteryProperties properties) = None"
  shows "(SetBatteryState b \<in> set (fst (processBatteryProperties properties)) \<longleftrightarrow>
            (\<exists>code. properties ''State'' = Some (PUInt32 code) \<and>
               (code = 1 \<and> b = Charging \<or> code = 2 \<and> b = Discharging \<or>
                (code = 4 \<or> code = 5) \<and> b = Idle))) \<and>
         (SetBatteryLimits x y \<in> set (fst (processBatteryProperties properties)) \<longleftrightarrow>
            properties ''EnergyEmpty'' = Some (PDouble x) \<and>
            properties ''EnergyFull'' = Some (PDouble y)) \<and>
         (UpdateEnergy z \<in> set (fst (processBatteryProperties properties)) \<longleftrightarrow>
            properties ''Energy'' = Some (PDouble z)) \<and>
         (\<forall>p. SetPowerState p \<notin> set (fst (processBatteryProperties properties))) \<and>
         sorted (map callBlock (fst (processBatteryProperties properties))) \<and>
         distinct (map callBlock (fst (processBatteryProperties properties))) \<and>
         (\<forall>n1 n2. distinct (map fst n1) \<and> distinct (map fst n2) \<and> set n1 = set n2 \<longrightarrow>
            processBatteryProperties (propertiesOf n1) = processBatteryProperties (propertiesOf n2))"
proof -
  from assms obtain c1 c2 c3 where
    b1: "stateBlock properties = Inr c1" and b2: "limitsBlock properties = Inr c2"
    and b3: "energyBlock properties = Inr c3"
    and f: "fst (processBatteryProperties properties) = c1 @ c2 @ c3"
    by (auto simp add: processBatteryProperties_def split: sum.splits)
  note k1 = stateBlock_calls [OF b1, of b]
  note k2 = limitsBlock_calls [OF b2, of x y]
  note k3 = energyBlock_calls [OF b3, of z]
  have o: "sorted (map callBlock (c1 @ c2 @ c3)) \<and> distinct (map callBlock (c1 @ c2 @ c3))"
    using k1 k2 k3 by (intro sorted_blocks) (elim conjE, assumption)+
  have r1: "\<forall>c \<in> set c1. callBlock c = 0" using k1 by (elim conjE)
  have r2: "\<forall>c \<in> set c2. callBlock c = 1" using k2 by (elim conjE)
  have r3: "\<forall>c \<in> set c3. callBlock c = 2" using k3 by (elim conjE)
  have n1: "\<forall>p. SetPowerState p \<notin> set c1" using k1 by (elim conjE)
  have m1: "SetBatteryState b \<in> set (c1 @ c2 @ c3) \<longleftrightarrow> SetBatteryState b \<in> set c1"
    using r2 r3 by fastforce
  have m2: "SetBatteryLimits x y \<in> set (c1 @ c2 @ c3) \<longleftrightarrow> SetBatteryLimits x y \<in> set c2"
    using r1 r3 by fastforce
  have m3: "UpdateEnergy z \<in> set (c1 @ c2 @ c3) \<longleftrightarrow> UpdateEnergy z \<in> set c3"
    using r1 r2 by fastforce
  have m4: "SetPowerState p \<notin> set (c1 @ c2 @ c3)" for p
    using n1 r2 r3 by fastforce
  have p: "processBatteryProperties (propertiesOf n1) = processBatteryProperties (propertiesOf n2)"
    if "distinct (map fst n1) \<and> distinct (map fst n2) \<and> set n1 = set n2"
    for n1 n2 :: "(string \<times> UPowerDeviceProperty) list"
  proof -
    from that have "map_of n1 = map_of n2" by (simp add: map_of_inject_set)
    then show ?thesis by (simp add: propertiesOf_def)
  qed
  show ?thesis unfolding f
  proof (intro conjI)
    show "SetBatteryState b \<in> set (c1 @ c2 @ c3) \<longleftrightarrow>
            (\<exists>code. properties ''State'' = Some (PUInt32 code) \<and>
               (code = 1 \<and> b = Charging \<or> code = 2 \<and> b = Discharging \<or>
                (code = 4 \<or> code = 5) \<and> b = Idle))"
      unfolding m1 using k1 by (elim conjE)
    show "SetBatteryLimits x y \<in> set (c1 @ c2 @ c3) \<longleftrightarrow>
            properties ''EnergyEmpty'' = Some (PDouble x) \<and>
            properties ''EnergyFull'' = Some (PDouble y)"
      unfolding m2 using k2 by (elim conjE)
    show "UpdateEnergy z \<in> set (c1 @ c2 @ c3) \<longleftrightarrow> properties ''Energy'' = Some (PDouble z)"
      unfolding m3 using k3 by (elim conjE)
    show "\<forall>p. SetPowerState p \<notin> set (c1 @ c2 @ c3)" using m4 by (rule allI)
    show "sorted (map callBlock (c1 @ c2 @ c3))" using o by (rule conjunct1)
    show "distinct (map callBlock (c1 @ c2 @ c3))" using o by (rule conjunct2)
    show "\<forall>n1 n2. distinct (map fst n1) \<and> distinct (map fst n2) \<and> set n1 = set n2 \<longrightarrow>
            processBatteryProperties (propertiesOf n1) = processBatteryProperties (propertiesOf n2)"
      using p by (intro allI impI)
  qed
qed

theorem processBatteryProperties_calls_witness:
  "snd (processBatteryProperties (propertiesOf
      [(''Energy'', PDouble 50), (''EnergyFull'', PDouble 100), (''State'', PUInt32 2),
       (''EnergyEmpty'', PDouble 0)])) = None \<and>
   set (fst (processBatteryProperties (propertiesOf
      [(''Energy'', PDouble 50), (''EnergyFull'', PDouble 100), (''State'', PUInt32 2),
       (''EnergyEmpty'', PDouble 0)]))) =
     {SetBatteryState Discharging, SetBatteryLimits 0 100, UpdateEnergy 50} \<and>
   sorted (map callBlock (fst (processBatteryProperties (propertiesOf
      [(''Energy'', PDouble 50), (''EnergyFull'', PDouble 100), (''State'', PUInt32 2),
       (''EnergyEmpty'', PDouble 0)]))))"
proof -
  let ?p = "propertiesOf [(''Energy'', PDouble 50), (''EnergyFull'', PDouble 100),
       (''State'', PUInt32 2), (''EnergyEmpty'', PDouble 0)]"
  have h: "snd (processBatteryProperties ?p) = None" by code_simp
  have v: "fst (processBatteryProperties ?p) =
      [SetBatteryState Discharging, SetBatteryLimits 0 100, UpdateEnergy 50]" by code_simp
  from processBatteryProperties_calls [OF h]
  have "sorted (map callBlock (fst (processBatteryProperties ?p)))" by blast
  then show ?thesis using h by (simp add: v)
qed

text \<open>
  The claim as stated fails: in a notification that lists Energy before State, the
  \<open>updateEnergy\<close> call is still made after the \<open>setBatteryState\<close> call.
\<close>

theorem notification_order_counterexample:
  "map fst [(''Energy'', PDouble 50), (''State'', PUInt32 1)] = [''Energy'', ''State''] \<and>
   processBatteryProperties (propertiesOf [(''Energy'', PDouble 50), (''State'', PUInt32 1)]) =
     ([SetBatteryState Charging, UpdateEnergy 50], None)"
proof -
  have "processBatteryProperties (propertiesOf [(''Energy'', PDouble 50), (''State'', PUInt32 1)]) =
     ([SetBatteryState Charging, UpdateEnergy 50], None)" by code_simp
  then show ?thesis by simp
qed

end
